theory Spec2Isabelle
  imports Main "HOL-Library.Word"
begin

section \<open>libcaf\_core: \<open>condition_variable.cpp\<close> (the RIOT port)\<close>

text \<open>
  The condition variable keeps its waiters in a RIOT \<open>priority_queue_t\<close>, an intrusive
  singly linked list of \<open>priority_queue_node_t\<close>. Every node lives on the stack of the
  thread that waits. The functions of \<open>condition_variable.cpp\<close> touch the list only
  through \<open>priority_queue_add\<close>, \<open>priority_queue_remove_head\<close> and
  \<open>priority_queue_remove\<close>, so the queue is the sequence of the addresses of its nodes,
  head first, and the fields \<open>priority\<close> and \<open>data\<close> of the nodes are kept in a store
  indexed by address: \<open>notify_one\<close> and \<open>notify_all\<close> write \<open>head->data\<close> through the
  pointer, and \<open>wait\<close> reads the field of its own node afterwards.
\<close>

type_synonym addr = nat

record priority_queue_node =
  priority :: "32 word"
  data :: "32 word"

text \<open>
  A thread control block, as far as the file reads and writes it: \<open>priority\<close> (an
  unsigned field narrower than \<open>int\<close>, so that the conversion to \<open>int\<close> keeps its
  value) and \<open>status\<close>.
\<close>

datatype thread_status = STATUS_PENDING | STATUS_SLEEPING | STATUS_OTHER nat

record tcb =
  tcb_priority :: "16 word"
  status :: thread_status

text \<open>
  The globals of the scheduler and the members of the condition variable.
  \<open>sched_threads\<close> is the table of \<open>tcb_t*\<close>, \<open>None\<close> for a null entry; its length is
  the size of the C array. \<open>sched_switch_calls\<close> lists the arguments of the calls of
  \<open>sched_switch\<close>, oldest first. \<open>mutex_locked\<close> is the state of the native mutexes.
\<close>

record cv_state =
  m_queue :: "addr list"
  nodes :: "addr \<Rightarrow> priority_queue_node"
  sched_threads :: "addr option list"
  tcbs :: "addr \<Rightarrow> tcb"
  sched_active_thread :: addr
  sched_active_pid :: int
  irq_enabled :: bool
  mutex_locked :: "addr \<Rightarrow> bool"
  sched_switch_calls :: "int list"

text \<open>
  Reading \<open>sched_threads[i]\<close> past the end of the array is undefined behaviour in C;
  the model stops there with \<open>Out_of_bounds\<close> instead of inventing a value.
\<close>

datatype fault = Out_of_bounds

subsection \<open>The RIOT primitives the file calls\<close>

text \<open>
  \<open>priority_queue.h\<close>, \<open>sched.h\<close>, \<open>irq.h\<close> and the native mutex belong to RIOT, not
  to this repository. Each function is given by what its header documents, on the
  state above: \<open>priority_queue_remove_head\<close> unlinks and returns the head, or returns
  null on an empty queue; \<open>priority_queue_remove\<close> unlinks a given node;
  \<open>sched_set_status\<close> writes the status of a thread; \<open>sched_switch\<close> is recorded
  with its argument; \<open>disableIRQ\<close> returns the previous interrupt state, which
  \<open>restoreIRQ\<close> puts back.
\<close>

definition priority_queue_remove_head :: "addr list \<Rightarrow> addr option \<times> addr list" where
  "priority_queue_remove_head q = (case q of [] \<Rightarrow> (None, []) | head # rest \<Rightarrow> (Some head, rest))"

text \<open>\<open>priority_queue_add\<close> links the node in front of the first node of strictly greater priority.\<close>

fun priority_queue_add :: "(addr \<Rightarrow> priority_queue_node) \<Rightarrow> addr list \<Rightarrow> addr \<Rightarrow> addr list" where
  "priority_queue_add ns [] n = [n]"
| "priority_queue_add ns (x # xs) n =
     (if priority (ns n) < priority (ns x) then n # x # xs else x # priority_queue_add ns xs n)"

definition priority_queue_remove :: "addr list \<Rightarrow> addr \<Rightarrow> addr list" where
  "priority_queue_remove q n = remove1 n q"

definition sched_set_status :: "addr \<Rightarrow> thread_status \<Rightarrow> cv_state \<Rightarrow> cv_state" where
  "sched_set_status t st s = s\<lparr>tcbs := (tcbs s)(t := (tcbs s t)\<lparr>status := st\<rparr>)\<rparr>"

definition sched_switch :: "int \<Rightarrow> cv_state \<Rightarrow> cv_state" where
  "sched_switch other_prio s = s\<lparr>sched_switch_calls := sched_switch_calls s @ [other_prio]\<rparr>"

definition disableIRQ :: "cv_state \<Rightarrow> bool \<times> cv_state" where
  "disableIRQ s = (irq_enabled s, s\<lparr>irq_enabled := False\<rparr>)"

definition restoreIRQ :: "bool \<Rightarrow> cv_state \<Rightarrow> cv_state" where
  "restoreIRQ old_state s = s\<lparr>irq_enabled := old_state\<rparr>"

subsection \<open>The destructor, \<open>notify_one\<close> and \<open>notify_all\<close>\<close>

text \<open>The destructor sets \<open>m_queue.first\<close> to null: the queue is empty afterwards.\<close>

definition destroy :: "cv_state \<Rightarrow> cv_state" where
  "destroy s = s\<lparr>m_queue := []\<rparr>"

text \<open>The lambda \<open>max_prio\<close> of \<open>notify_all\<close>.\<close>

definition max_prio :: "int \<Rightarrow> int \<Rightarrow> int" where
  "max_prio a b = (if a < 0 then b else if a < b then a else b)"

text \<open>
  \<open>notify_one\<close>: interrupts off, remove the head; when there is one, look the thread up
  in \<open>sched_threads[head->data]\<close>, and when that entry is not null take its priority and
  set it pending; write \<open>-1u\<close> into \<open>head->data\<close>; interrupts restored; then
  \<open>sched_switch\<close> when a thread was found.
\<close>

definition notify_one :: "cv_state \<Rightarrow> fault + cv_state" where
  "notify_one s =
     (let (old_state, s0) = disableIRQ s;
          (head, q) = priority_queue_remove_head (m_queue s0);
          s1 = s0\<lparr>m_queue := q\<rparr>
      in case
           (case head of
              None \<Rightarrow> Inr (s1, - 1)
            | Some h \<Rightarrow>
                (let i = unat (data (nodes s1 h)) in
                 if length (sched_threads s1) \<le> i then Inl Out_of_bounds
                 else
                   (let (s2, other_prio) =
                          (case sched_threads s1 ! i of
                             None \<Rightarrow> (s1, - 1)
                           | Some other_thread \<Rightarrow>
                               (sched_set_status other_thread STATUS_PENDING s1,
                                uint (tcb_priority (tcbs s1 other_thread))))
                    in Inr (s2\<lparr>nodes := (nodes s2)(h := (nodes s2 h)\<lparr>data := - 1\<rparr>)\<rparr>, other_prio))))
         of
           Inl e \<Rightarrow> Inl e
         | Inr (s3, other_prio) \<Rightarrow>
             (let s4 = restoreIRQ old_state s3
              in Inr (if 0 \<le> other_prio then sched_switch other_prio s4 else s4)))"

text \<open>
  The \<open>while (true)\<close> loop of \<open>notify_all\<close>, with \<open>other_prio\<close> as its accumulator. It
  ends when \<open>priority_queue_remove_head\<close> returns null.
\<close>

function notify_all_loop :: "cv_state \<Rightarrow> int \<Rightarrow> fault + cv_state \<times> int" where
  "notify_all_loop s other_prio =
     (let (head, q) = priority_queue_remove_head (m_queue s);
          s1 = s\<lparr>m_queue := q\<rparr>
      in case head of
           None \<Rightarrow> Inr (s1, other_prio)
         | Some h \<Rightarrow>
             (let i = unat (data (nodes s1 h)) in
              if length (sched_threads s1) \<le> i then Inl Out_of_bounds
              else
                (let (s2, prio2) =
                       (case sched_threads s1 ! i of
                          None \<Rightarrow> (s1, other_prio)
                        | Some other_thread \<Rightarrow>
                            (sched_set_status other_thread STATUS_PENDING s1,
                             max_prio other_prio (uint (tcb_priority (tcbs s1 other_thread)))));
                     s3 = s2\<lparr>nodes := (nodes s2)(h := (nodes s2 h)\<lparr>data := - 1\<rparr>)\<rparr>
                 in notify_all_loop s3 prio2)))"
  by pat_completeness auto

termination notify_all_loop
  by (relation "measure (\<lambda>(s, p). length (m_queue s))")
     (auto simp: priority_queue_remove_head_def sched_set_status_def split: list.splits option.splits)

definition notify_all :: "cv_state \<Rightarrow> fault + cv_state" where
  "notify_all s =
     (let (old_state, s0) = disableIRQ s
      in case notify_all_loop s0 (- 1) of
           Inl e \<Rightarrow> Inl e
         | Inr (s1, other_prio) \<Rightarrow>
             (let s2 = restoreIRQ old_state s1
              in Inr (if 0 \<le> other_prio then sched_switch other_prio s2 else s2)))"

subsection \<open>\<open>wait\<close>\<close>

text \<open>
  \<open>unique_lock<mutex>\<close>: whether it owns its mutex, and the mutex it refers to.
\<close>

record unique_lock =
  owns_lock :: bool
  mutex :: addr

datatype exn = Runtime_error string

text \<open>
  How a call ends: it returns, or an exception leaves it. \<open>wait\<close> is declared
  \<open>noexcept\<close>: an exception that would leave such a function calls \<open>std::terminate\<close>
  instead of reaching the caller, which is \<open>Terminated\<close>.
\<close>

datatype completion = Returned | Thrown exn | Terminated exn

definition noexcept :: "completion \<times> cv_state \<Rightarrow> completion \<times> cv_state" where
  "noexcept r = (case r of (Thrown e, s) \<Rightarrow> (Terminated e, s) | _ \<Rightarrow> r)"

definition mutex_unlock_and_sleep :: "addr \<Rightarrow> cv_state \<Rightarrow> cv_state" where
  "mutex_unlock_and_sleep m s =
     sched_set_status (sched_active_thread s) STATUS_SLEEPING (s\<lparr>mutex_locked := (mutex_locked s)(m := False)\<rparr>)"

definition mutex_lock :: "addr \<Rightarrow> cv_state \<Rightarrow> cv_state" where
  "mutex_lock m s = s\<lparr>mutex_locked := (mutex_locked s)(m := True)\<rparr>"

text \<open>
  \<open>wait\<close> suspends the calling thread inside \<open>mutex_unlock_and_sleep\<close>; what other
  threads do meanwhile is not part of this function. The body is therefore given in two
  halves. \<open>wait_body_enter\<close> is the code up to and including
  \<open>mutex_unlock_and_sleep\<close>: the ownership check and its \<open>throw\<close>, the local node
  \<open>n\<close> (at address \<open>n\<close> of the caller's stack) filled from the scheduler's globals, and
  \<open>priority_queue_add\<close> with interrupts off. \<open>wait_body_resume\<close> is the code after the
  thread runs again: the node is unlinked unless a notification wrote \<open>-1u\<close> into its
  \<open>data\<close>, and the mutex is taken again.
\<close>

definition wait_body_enter :: "unique_lock \<Rightarrow> addr \<Rightarrow> cv_state \<Rightarrow> completion \<times> cv_state" where
  "wait_body_enter lock n s =
     (if \<not> owns_lock lock
      then (Thrown (Runtime_error ''condition_variable::wait: mutex not locked''), s)
      else
        (let s1 = s\<lparr>nodes := (nodes s)(n :=
                      \<lparr>priority = ucast (tcb_priority (tcbs s (sched_active_thread s))),
                       data = word_of_int (sched_active_pid s)\<rparr>)\<rparr>;
             (old_state, s2) = disableIRQ s1;
             s3 = s2\<lparr>m_queue := priority_queue_add (nodes s2) (m_queue s2) n\<rparr>;
             s4 = restoreIRQ old_state s3
         in (Returned, mutex_unlock_and_sleep (mutex lock) s4)))"

definition wait_body_resume :: "unique_lock \<Rightarrow> addr \<Rightarrow> cv_state \<Rightarrow> completion \<times> cv_state" where
  "wait_body_resume lock n s =
     (let s3 =
            (if data (nodes s n) \<noteq> - 1
             then (let (old_state, s1) = disableIRQ s;
                       s2 = s1\<lparr>m_queue := priority_queue_remove (m_queue s1) n\<rparr>
                   in restoreIRQ old_state s2)
             else s)
      in (Returned, mutex_lock (mutex lock) s3))"

definition wait_enter :: "unique_lock \<Rightarrow> addr \<Rightarrow> cv_state \<Rightarrow> completion \<times> cv_state" where
  "wait_enter lock n s = noexcept (wait_body_enter lock n s)"

definition wait_resume :: "unique_lock \<Rightarrow> addr \<Rightarrow> cv_state \<Rightarrow> completion \<times> cv_state" where
  "wait_resume lock n s = noexcept (wait_body_resume lock n s)"

subsection \<open>Notions the statements use\<close>

text \<open>
  One turn of the loop of \<open>notify_all\<close> on a queue \<open>h # rest\<close> whose head indexes the
  thread table, in closed form.
\<close>

definition notify_all_iteration :: "addr \<Rightarrow> addr list \<Rightarrow> cv_state \<Rightarrow> int \<Rightarrow> cv_state \<times> int" where
  "notify_all_iteration h rest s p =
     (case sched_threads s ! unat (data (nodes s h)) of
        None \<Rightarrow> (s\<lparr>m_queue := rest, nodes := (nodes s)(h := (nodes s h)\<lparr>data := - 1\<rparr>)\<rparr>, p)
      | Some t \<Rightarrow>
          (s\<lparr>m_queue := rest,
             tcbs := (tcbs s)(t := (tcbs s t)\<lparr>status := STATUS_PENDING\<rparr>),
             nodes := (nodes s)(h := (nodes s h)\<lparr>data := - 1\<rparr>)\<rparr>,
           max_prio p (uint (tcb_priority (tcbs s t)))))"

text \<open>
  The thread a queued node refers to: the entry \<open>sched_threads[data]\<close> when \<open>data\<close> is
  an index of the table and the entry is not null.
\<close>

definition referenced_thread :: "cv_state \<Rightarrow> addr \<Rightarrow> addr option" where
  "referenced_thread s a =
     (let i = unat (data (nodes s a)) in
      if i < length (sched_threads s) then sched_threads s ! i else None)"

text \<open>
  The queue as \<open>wait\<close> builds it: no node is linked twice, and the \<open>data\<close> of every
  queued node (the pid of its waiter) is an index of the thread table.
\<close>

definition waiters_ok :: "cv_state \<Rightarrow> bool" where
  "waiters_ok s \<longleftrightarrow>
     distinct (m_queue s) \<and>
     list_all (\<lambda>a. unat (data (nodes s a)) < length (sched_threads s)) (m_queue s)"

text \<open>A state with two waiters, used to instantiate the statements below.\<close>

definition two_waiters :: cv_state where
  "two_waiters =
     \<lparr>m_queue = [10, 11],
      nodes = (\<lambda>_. \<lparr>priority = 0, data = 0\<rparr>)
                (10 := \<lparr>priority = 3, data = 1\<rparr>, 11 := \<lparr>priority = 5, data = 2\<rparr>),
      sched_threads = [None, Some 100, Some 101],
      tcbs = (\<lambda>_. \<lparr>tcb_priority = 7, status = STATUS_SLEEPING\<rparr>),
      sched_active_thread = 100,
      sched_active_pid = 1,
      irq_enabled = True,
      mutex_locked = (\<lambda>_. False),
      sched_switch_calls = []\<rparr>"

section \<open>libcaf\_io: the BASP \<open>instance\<close> (\<open>instance.hpp\<close>)\<close>

text \<open>
  \<open>instance.hpp\<close> declares the class, its members and its callback interface
  \<open>callee\<close>. The bodies of its member functions (\<open>instance.cpp\<close>) and the headers
  \<open>header.hpp\<close>, \<open>routing_table.hpp\<close> and \<open>message_type.hpp\<close> are not among the
  sources. Types and signatures below follow the declarations of \<open>instance.hpp\<close>;
  what a body does is taken from the specification and marked as such.
\<close>

type_synonym node_id = nat
type_synonym actor_id = nat
type_synonym strong_actor_ptr = nat
type_synonym buffer_type = "8 word list"

text \<open>\<open>callee::endpoint_handle\<close>: \<open>variant<connection_handle, datagram_handle>\<close>.\<close>

datatype endpoint_handle = Connection_handle int | Datagram_handle int

text \<open>
  Modelled from the spec: the message kinds (\<open>message_type.hpp\<close> is not among the
  sources), in the order of section 3 of the specification.
\<close>

datatype message_type =
  server_handshake | client_handshake | dispatch_message | dispatch_message_named
  | announce_proxy | kill_proxy | heartbeat

text \<open>
  Modelled from the spec: the protocol header (\<open>header.hpp\<close> is not among the sources),
  with the fields of sections 3 and 6: operation, source and destination node, source
  actor, destination actor id or packed name, correlation id and payload length. The
  destination node is optional because \<open>write_heartbeat(ctx, buf)\<close> is given no node to
  name. The specification fixes no byte layout, so a frame is kept as the header value
  and the payload bytes that follow it.
\<close>

record header =
  operation :: message_type
  source_node :: node_id
  dest_node :: "node_id option"
  source_actor :: actor_id
  dest_actor :: nat
  correlation_id :: "64 word"
  payload_len :: "32 word"

record frame =
  frame_header :: header
  frame_payload :: buffer_type

text \<open>
  Modelled from the spec: a routing entry (\<open>routing_table.hpp\<close> is not among the
  sources) is a direct endpoint handle or pending; the table maps each known node to
  one entry, with unique keys. It is an association list, so that the heartbeat can
  walk it.
\<close>

datatype route = Direct endpoint_handle | Pending

type_synonym routing_table = "(node_id \<times> route) list"

text \<open>
  \<open>published_actor\<close> and \<open>published_actor_map\<close> as \<open>instance.hpp\<close> declares them: a
  pair of an actor and its set of interface signatures, keyed by a 16-bit port. The
  \<open>unordered_map\<close> is an association list with at most one entry for a port.
\<close>

type_synonym published_actor = "strong_actor_ptr \<times> string set"

type_synonym published_actor_map = "(16 word \<times> published_actor) list"

text \<open>
  What the instance does to its collaborator, in order: bytes appended to the buffer
  \<open>callee::get_buffer(hdl)\<close> returns, and \<open>callee::flush(hdl)\<close>. \<open>callee\<close> is a pure
  virtual interface, so its calls are recorded, not interpreted.
\<close>

datatype call =
  Buffer_write endpoint_handle frame
  | Flush endpoint_handle

text \<open>
  The private members of the class \<open>instance\<close> (the word is reserved here, hence the
  longer name); \<open>calls\<close> stands for the reference \<open>callee_\<close>.
\<close>

record basp_instance =
  tbl :: routing_table
  published_actors :: published_actor_map
  this_node :: node_id
  calls :: "call list"

subsection \<open>Heartbeat\<close>

text \<open>
  Modelled from the spec: the static \<open>write(ctx, buf, hdr, pw)\<close>, which writes a header
  followed by its payload and sets \<open>hdr.payload_len\<close> when a payload writer produced a
  payload. \<open>pw\<close> is the payload the writer produces, \<open>None\<close> for \<open>nullptr\<close>.
\<close>

definition write_frame :: "header \<Rightarrow> buffer_type option \<Rightarrow> frame" where
  "write_frame hdr pw =
     (case pw of
        None \<Rightarrow> \<lparr>frame_header = hdr, frame_payload = []\<rparr>
      | Some bytes \<Rightarrow>
          \<lparr>frame_header = hdr\<lparr>payload_len := of_nat (length bytes)\<rparr>, frame_payload = bytes\<rparr>)"

text \<open>
  Modelled from the spec: the frame \<open>write_heartbeat\<close> writes (section 4.5): a
  \<open>heartbeat\<close> header from this node, no payload.
\<close>

definition write_heartbeat :: "node_id \<Rightarrow> frame" where
  "write_heartbeat this =
     write_frame
       \<lparr>operation = heartbeat, source_node = this, dest_node = None, source_actor = 0,
        dest_actor = 0, correlation_id = 0, payload_len = 0\<rparr>
       None"

text \<open>
  Modelled from the spec: the body of \<open>flush(hdl)\<close>, which hands the handle to
  \<open>callee::flush\<close> (section 6).
\<close>

definition flush :: "endpoint_handle \<Rightarrow> basp_instance \<Rightarrow> basp_instance" where
  "flush hdl s = s\<lparr>calls := calls s @ [Flush hdl]\<rparr>"

text \<open>
  Modelled from the spec: what \<open>handle_heartbeat\<close> does for one entry of the routing
  table (section 4.5): when the entry is direct, a heartbeat frame is written to the
  buffer of its handle and the handle is flushed; a pending entry is skipped.
\<close>

definition heartbeat_to :: "basp_instance \<Rightarrow> node_id \<times> route \<Rightarrow> basp_instance" where
  "heartbeat_to s e =
     (case snd e of
        Direct hdl \<Rightarrow>
          flush hdl (s\<lparr>calls := calls s @ [Buffer_write hdl (write_heartbeat (this_node s))]\<rparr>)
      | Pending \<Rightarrow> s)"

text \<open>
  Modelled from the spec: the body of \<open>handle_heartbeat\<close> (section 4.5), which visits
  every node of the routing table.
\<close>

definition handle_heartbeat :: "basp_instance \<Rightarrow> basp_instance" where
  "handle_heartbeat s = foldl heartbeat_to s (tbl s)"

subsection \<open>Notions the statements use\<close>

text \<open>The direct entries of a routing table, in table order.\<close>

fun direct_routes :: "routing_table \<Rightarrow> (node_id \<times> endpoint_handle) list" where
  "direct_routes [] = []"
| "direct_routes ((nd, Direct hdl) # es) = (nd, hdl) # direct_routes es"
| "direct_routes ((nd, Pending) # es) = direct_routes es"

text \<open>What one heartbeat to a handle adds to the calls: the frame, then the flush.\<close>

definition heartbeat_calls :: "node_id \<Rightarrow> node_id \<times> endpoint_handle \<Rightarrow> call list" where
  "heartbeat_calls this e = [Buffer_write (snd e) (write_heartbeat this), Flush (snd e)]"

text \<open>A call that writes a heartbeat frame with no payload.\<close>

fun is_heartbeat_write :: "call \<Rightarrow> bool" where
  "is_heartbeat_write (Buffer_write hdl f) =
     (operation (frame_header f) = heartbeat \<and> payload_len (frame_header f) = 0
      \<and> frame_payload f = [])"
| "is_heartbeat_write _ = False"

text \<open>An instance with an empty registry and three known nodes, two of them direct.\<close>

definition three_nodes :: basp_instance where
  "three_nodes =
     \<lparr>tbl = [(1, Direct (Connection_handle 5)), (2, Pending), (3, Direct (Datagram_handle 6))],
      published_actors = [],
      this_node = 9,
      calls = []\<rparr>"

section \<open>Properties of the condition variable\<close>

declare notify_all_loop.simps [simp del]

lemma loop_Nil: "m_queue s = [] \<Longrightarrow> notify_all_loop s p = Inr (s, p)"
  by (subst notify_all_loop.simps) (simp add: priority_queue_remove_head_def)

lemma loop_Cons:
  "m_queue s = h # rest \<Longrightarrow>
   notify_all_loop s p =
     (if length (sched_threads s) \<le> unat (data (nodes s h)) then Inl Out_of_bounds
      else notify_all_loop (fst (notify_all_iteration h rest s p)) (snd (notify_all_iteration h rest s p)))"
  by (subst notify_all_loop.simps)
     (simp add: priority_queue_remove_head_def notify_all_iteration_def sched_set_status_def Let_def
           split: option.splits)


lemma notify_all_iteration_fields:
  "m_queue (fst (notify_all_iteration h rest s p)) = rest"
  "sched_threads (fst (notify_all_iteration h rest s p)) = sched_threads s"
  "nodes (fst (notify_all_iteration h rest s p)) = (nodes s)(h := (nodes s h)\<lparr>data := - 1\<rparr>)"
  by (simp_all add: notify_all_iteration_def split: option.splits)

lemma notify_all_iteration_tcbs:
  "tcbs (fst (notify_all_iteration h rest s p)) =
     (case sched_threads s ! unat (data (nodes s h)) of
        None \<Rightarrow> tcbs s
      | Some t \<Rightarrow> (tcbs s)(t := (tcbs s t)\<lparr>status := STATUS_PENDING\<rparr>))"
  by (simp add: notify_all_iteration_def split: option.splits)

lemma notify_all_loop_Inr:
  "notify_all_loop s p = Inr (s', p') \<Longrightarrow>
     m_queue s' = [] \<and> sched_threads s' = sched_threads s \<and>
     (\<forall>a\<in>set (m_queue s). data (nodes s' a) = - 1) \<and>
     (\<forall>a. a \<notin> set (m_queue s) \<longrightarrow> nodes s' a = nodes s a) \<and>
     (\<forall>t. status (tcbs s t) = STATUS_PENDING \<longrightarrow> status (tcbs s' t) = STATUS_PENDING) \<and>
     (\<forall>a\<in>set (m_queue s). \<forall>t.
        unat (data (nodes s a)) < length (sched_threads s) \<and>
        sched_threads s ! unat (data (nodes s a)) = Some t \<longrightarrow>
        status (tcbs s' t) = STATUS_PENDING)"
proof (induction "m_queue s" arbitrary: s p)
  case Nil
  then show ?case by (simp add: loop_Nil [OF Nil(1) [symmetric]])
next
  case (Cons h rest)
  let ?s1 = "fst (notify_all_iteration h rest s p)"
  let ?p1 = "snd (notify_all_iteration h rest s p)"
  have q: "m_queue s = h # rest" using Cons.hyps(2) by simp
  from Cons.prems have inb: "unat (data (nodes s h)) < length (sched_threads s)"
    and run: "notify_all_loop ?s1 ?p1 = Inr (s', p')"
    by (auto simp: loop_Cons [OF q] split: if_splits)
  have IH: "m_queue s' = [] \<and> sched_threads s' = sched_threads ?s1 \<and>
     (\<forall>a\<in>set (m_queue ?s1). data (nodes s' a) = - 1) \<and>
     (\<forall>a. a \<notin> set (m_queue ?s1) \<longrightarrow> nodes s' a = nodes ?s1 a) \<and>
     (\<forall>t. status (tcbs ?s1 t) = STATUS_PENDING \<longrightarrow> status (tcbs s' t) = STATUS_PENDING) \<and>
     (\<forall>a\<in>set (m_queue ?s1). \<forall>t.
        unat (data (nodes ?s1 a)) < length (sched_threads ?s1) \<and>
        sched_threads ?s1 ! unat (data (nodes ?s1 a)) = Some t \<longrightarrow>
        status (tcbs s' t) = STATUS_PENDING)"
    by (rule Cons.hyps(1) [OF _ run]) (simp add: notify_all_iteration_fields)
  have mono1: "\<And>t. status (tcbs s t) = STATUS_PENDING \<Longrightarrow> status (tcbs ?s1 t) = STATUS_PENDING"
    by (simp add: notify_all_iteration_tcbs split: option.splits)
  have head1: "\<And>t. sched_threads s ! unat (data (nodes s h)) = Some t \<Longrightarrow> status (tcbs ?s1 t) = STATUS_PENDING"
    by (simp add: notify_all_iteration_tcbs)
  have c1: "m_queue s' = []" using IH by simp
  have c2: "sched_threads s' = sched_threads s" using IH by (simp add: notify_all_iteration_fields)
  have c3: "\<forall>a\<in>set (m_queue s). data (nodes s' a) = - 1"
  proof
    fix a assume "a \<in> set (m_queue s)"
    then consider "a \<in> set rest" | "a = h" "a \<notin> set rest" using q by auto
    then show "data (nodes s' a) = - 1"
    proof cases
      case 1 then show ?thesis using IH by (simp add: notify_all_iteration_fields)
    next
      case 2
      then have "nodes s' a = nodes ?s1 a" using IH by (simp add: notify_all_iteration_fields)
      then show ?thesis using 2 by (simp add: notify_all_iteration_fields)
    qed
  qed
  have c4: "\<forall>a. a \<notin> set (m_queue s) \<longrightarrow> nodes s' a = nodes s a"
    using IH q by (simp add: notify_all_iteration_fields)
  have c5: "\<forall>t. status (tcbs s t) = STATUS_PENDING \<longrightarrow> status (tcbs s' t) = STATUS_PENDING"
    using IH mono1 by blast
  have c6: "\<forall>a\<in>set (m_queue s). \<forall>t.
        unat (data (nodes s a)) < length (sched_threads s) \<and>
        sched_threads s ! unat (data (nodes s a)) = Some t \<longrightarrow>
        status (tcbs s' t) = STATUS_PENDING"
  proof (intro ballI allI impI)
    fix a t
    assume a: "a \<in> set (m_queue s)"
      and t: "unat (data (nodes s a)) < length (sched_threads s) \<and>
        sched_threads s ! unat (data (nodes s a)) = Some t"
    show "status (tcbs s' t) = STATUS_PENDING"
    proof (cases "a = h")
      case True
      then have "status (tcbs ?s1 t) = STATUS_PENDING" using t head1 by simp
      then show ?thesis using IH by blast
    next
      case False
      then have "a \<in> set (m_queue ?s1)" using a q by (simp add: notify_all_iteration_fields)
      moreover have "nodes ?s1 a = nodes s a" using False by (simp add: notify_all_iteration_fields)
      ultimately show ?thesis using IH t by (simp add: notify_all_iteration_fields)
    qed
  qed
  show ?case using c1 c2 c3 c4 c5 c6 by blast
qed


lemma notify_all_loop_returns:
  "distinct (m_queue s) \<Longrightarrow>
   \<forall>a\<in>set (m_queue s). unat (data (nodes s a)) < length (sched_threads s) \<Longrightarrow>
   \<exists>r. notify_all_loop s p = Inr r"
proof (induction "m_queue s" arbitrary: s p)
  case Nil
  then show ?case by (simp add: loop_Nil [OF Nil(1) [symmetric]])
next
  case (Cons h rest)
  have q: "m_queue s = h # rest" using Cons.hyps(2) by simp
  let ?s1 = "fst (notify_all_iteration h rest s p)"
  have "\<exists>r. notify_all_loop ?s1 (snd (notify_all_iteration h rest s p)) = Inr r"
  proof (rule Cons.hyps(1))
    show "rest = m_queue ?s1" by (simp add: notify_all_iteration_fields)
    show "distinct (m_queue ?s1)" using Cons.prems(1) q by (simp add: notify_all_iteration_fields)
    show "\<forall>a\<in>set (m_queue ?s1). unat (data (nodes ?s1 a)) < length (sched_threads ?s1)"
      using Cons.prems q by (auto simp: notify_all_iteration_fields)
  qed
  moreover have "unat (data (nodes s h)) < length (sched_threads s)"
    using Cons.prems(2) q by simp
  ultimately show ?case by (simp add: loop_Cons [OF q])
qed

lemma notify_all_Inr:
  "notify_all s = Inr s' \<Longrightarrow>
   \<exists>s1 p1. notify_all_loop (s\<lparr>irq_enabled := False\<rparr>) (- 1) = Inr (s1, p1) \<and>
     m_queue s' = m_queue s1 \<and> nodes s' = nodes s1 \<and> tcbs s' = tcbs s1"
  by (auto simp: notify_all_def disableIRQ_def restoreIRQ_def sched_switch_def Let_def
           split: sum.splits if_splits prod.splits)

lemma notify_all_returns:
  "waiters_ok s \<Longrightarrow> \<exists>s'. notify_all s = Inr s'"
proof -
  assume ok: "waiters_ok s"
  let ?s0 = "s\<lparr>irq_enabled := False\<rparr>"
  have "\<exists>r. notify_all_loop ?s0 (- 1) = Inr r"
    by (rule notify_all_loop_returns) (use ok in \<open>simp_all add: waiters_ok_def list_all_iff\<close>)
  then obtain s1 p1 where "notify_all_loop ?s0 (- 1) = Inr (s1, p1)" by force
  then show ?thesis
    by (simp add: notify_all_def disableIRQ_def Let_def)
qed

text \<open>
  C10. For every state of the waiter queue, once \<open>notify_all\<close> has returned the queue
  is empty, every node that was queued has \<open>-1u\<close> in its \<open>data\<close> field, and every
  thread that a queued node referred to (a non-null entry \<open>sched_threads[data]\<close>) has
  the status \<open>STATUS_PENDING\<close>. The call does return whenever the queue is as \<open>wait\<close>
  builds it: each node linked once, each \<open>data\<close> an index of the thread table.
\<close>

theorem notify_all_signals_every_waiter:
  "(waiters_ok s \<longrightarrow> (\<exists>s'. notify_all s = Inr s')) \<and>
   (\<forall>s'. notify_all s = Inr s' \<longrightarrow>
      m_queue s' = [] \<and>
      (\<forall>a\<in>set (m_queue s). data (nodes s' a) = - 1) \<and>
      (\<forall>a\<in>set (m_queue s). \<forall>t. referenced_thread s a = Some t \<longrightarrow>
         status (tcbs s' t) = STATUS_PENDING))"
proof (intro conjI allI impI)
  assume "waiters_ok s"
  then show "\<exists>s'. notify_all s = Inr s'" by (rule notify_all_returns)
next
  fix s' assume r: "notify_all s = Inr s'"
  let ?s0 = "s\<lparr>irq_enabled := False\<rparr>"
  from notify_all_Inr [OF r] obtain s1 p1
    where l: "notify_all_loop ?s0 (- 1) = Inr (s1, p1)"
      and e: "m_queue s' = m_queue s1" "nodes s' = nodes s1" "tcbs s' = tcbs s1"
    by blast
  note inv = notify_all_loop_Inr [OF l]
  show "m_queue s' = []" using inv e by simp
  show "\<forall>a\<in>set (m_queue s). data (nodes s' a) = - 1" using inv e by simp
  show "\<forall>a\<in>set (m_queue s). \<forall>t. referenced_thread s a = Some t \<longrightarrow>
         status (tcbs s' t) = STATUS_PENDING"
  proof (intro ballI allI impI)
    fix a t assume a: "a \<in> set (m_queue s)" and t: "referenced_thread s a = Some t"
    from t have "unat (data (nodes ?s0 a)) < length (sched_threads ?s0) \<and>
        sched_threads ?s0 ! unat (data (nodes ?s0 a)) = Some t"
      by (simp add: referenced_thread_def Let_def split: if_splits)
    moreover have "a \<in> set (m_queue ?s0)" using a by simp
    ultimately have "status (tcbs s1 t) = STATUS_PENDING" using inv by blast
    then show "status (tcbs s' t) = STATUS_PENDING" using e by simp
  qed
qed

lemma two_waiters_ok: "waiters_ok two_waiters"
  by (simp add: waiters_ok_def two_waiters_def)

theorem notify_all_signals_every_waiter_witness:
  "waiters_ok two_waiters \<and>
   (\<exists>s'. notify_all two_waiters = Inr s' \<and> m_queue s' = [] \<and>
      data (nodes s' 10) = - 1 \<and> data (nodes s' 11) = - 1 \<and>
      referenced_thread two_waiters 10 = Some 100 \<and> status (tcbs s' 100) = STATUS_PENDING \<and>
      referenced_thread two_waiters 11 = Some 101 \<and> status (tcbs s' 101) = STATUS_PENDING)"
proof -
  note th = notify_all_signals_every_waiter [of two_waiters]
  have ok: "waiters_ok two_waiters" by (rule two_waiters_ok)
  with th obtain s' where r: "notify_all two_waiters = Inr s'" by blast
  have q: "m_queue two_waiters = [10, 11]" by (simp add: two_waiters_def)
  have r10: "referenced_thread two_waiters 10 = Some 100"
    and r11: "referenced_thread two_waiters 11 = Some 101"
    by (simp_all add: referenced_thread_def two_waiters_def)
  from th r have "m_queue s' = []"
    and "\<forall>a\<in>set (m_queue two_waiters). data (nodes s' a) = - 1"
    and "\<forall>a\<in>set (m_queue two_waiters). \<forall>t. referenced_thread two_waiters a = Some t \<longrightarrow>
         status (tcbs s' t) = STATUS_PENDING"
    by blast+
  then show ?thesis using ok r q r10 r11 by simp
qed

text \<open>
  C9. A call of \<open>wait\<close> with a \<open>unique_lock\<close> that does not own its mutex reaches the
  \<open>throw std::runtime_error\<close> before anything is enqueued: the body throws with the
  state, and so the waiter queue, unchanged. As \<open>wait\<close> is declared \<open>noexcept\<close> the
  exception ends in \<open>std::terminate\<close> rather than in the caller.
\<close>

theorem wait_without_owned_lock_throws:
  "\<not> owns_lock lock \<Longrightarrow>
   wait_body_enter lock n s =
     (Thrown (Runtime_error ''condition_variable::wait: mutex not locked''), s) \<and>
   wait_enter lock n s =
     (Terminated (Runtime_error ''condition_variable::wait: mutex not locked''), s) \<and>
   m_queue (snd (wait_enter lock n s)) = m_queue s"
  by (simp add: wait_enter_def wait_body_enter_def noexcept_def)

theorem wait_without_owned_lock_throws_witness:
  "\<not> owns_lock \<lparr>owns_lock = False, mutex = 5\<rparr> \<and>
   wait_enter \<lparr>owns_lock = False, mutex = 5\<rparr> 12 two_waiters =
     (Terminated (Runtime_error ''condition_variable::wait: mutex not locked''), two_waiters) \<and>
   m_queue (snd (wait_enter \<lparr>owns_lock = False, mutex = 5\<rparr> 12 two_waiters)) = [10, 11]"
  using wait_without_owned_lock_throws [of "\<lparr>owns_lock = False, mutex = 5\<rparr>" 12 two_waiters]
  by (simp add: two_waiters_def)

lemma priority_queue_add_set: "set (priority_queue_add ns q n) = insert n (set q)"
  by (induction q) auto

lemma wait_with_owned_lock_enqueues:
  "owns_lock lock \<Longrightarrow>
   fst (wait_enter lock n s) = Returned \<and>
   set (m_queue (snd (wait_enter lock n s))) = insert n (set (m_queue s))"
  by (simp add: wait_enter_def wait_body_enter_def noexcept_def disableIRQ_def restoreIRQ_def
        mutex_unlock_and_sleep_def sched_set_status_def Let_def priority_queue_add_set)

text \<open>
  \<open>wait\<close> keeps the queue in the shape \<open>notify_all\<close> returns on: the node it links is
  new to the queue and holds the pid of the running thread.
\<close>

lemma priority_queue_add_distinct:
  "distinct (priority_queue_add ns q n) \<longleftrightarrow> n \<notin> set q \<and> distinct q"
  by (induction q) (auto simp: priority_queue_add_set)

lemma wait_enter_waiters_ok:
  assumes "waiters_ok s" and "owns_lock lock" and "n \<notin> set (m_queue s)"
    and "0 \<le> sched_active_pid s" and "nat (sched_active_pid s) < length (sched_threads s)"
    and "sched_active_pid s < 2 ^ 32"
  shows "waiters_ok (snd (wait_enter lock n s))"
proof -
  have "unat (word_of_int (sched_active_pid s) :: 32 word) = nat (sched_active_pid s)"
    using assms(4,6) by (simp add: unat_eq_nat_uint uint_word_of_int take_bit_int_eq_self)
  then show ?thesis
    using assms
    by (auto simp: waiters_ok_def wait_enter_def wait_body_enter_def noexcept_def disableIRQ_def
          restoreIRQ_def mutex_unlock_and_sleep_def sched_set_status_def Let_def
          priority_queue_add_set priority_queue_add_distinct list_all_iff)
qed

section \<open>Properties of the BASP instance\<close>

lemma heartbeat_to_simps:
  "heartbeat_to s (nd, Direct hdl) = s\<lparr>calls := calls s @ heartbeat_calls (this_node s) (nd, hdl)\<rparr>"
  "heartbeat_to s (nd, Pending) = s"
  by (simp_all add: heartbeat_to_def flush_def heartbeat_calls_def)

lemma foldl_heartbeat_to:
  "foldl heartbeat_to s es =
     s\<lparr>calls := calls s @ concat (map (heartbeat_calls (this_node s)) (direct_routes es))\<rparr>"
  by (induction es arbitrary: s rule: direct_routes.induct) (simp_all add: heartbeat_to_simps)

lemma handle_heartbeat_calls:
  "handle_heartbeat s =
     s\<lparr>calls := calls s @ concat (map (heartbeat_calls (this_node s)) (direct_routes (tbl s)))\<rparr>"
  by (simp add: handle_heartbeat_def foldl_heartbeat_to)

lemma heartbeat_ticks_calls:
  "(handle_heartbeat ^^ n) s =
     s\<lparr>calls := calls s @
         concat (replicate n (concat (map (heartbeat_calls (this_node s)) (direct_routes (tbl s)))))\<rparr>"
proof (induction n)
  case 0
  show ?case by simp
next
  case (Suc n)
  let ?tick = "concat (map (heartbeat_calls (this_node s)) (direct_routes (tbl s)))"
  have swap: "concat (replicate n xs) @ xs = xs @ concat (replicate n xs)" for xs :: "call list"
    by (induction n) simp_all
  have "(handle_heartbeat ^^ Suc n) s = handle_heartbeat ((handle_heartbeat ^^ n) s)"
    by simp
  also have "\<dots> = handle_heartbeat (s\<lparr>calls := calls s @ concat (replicate n ?tick)\<rparr>)"
    by (simp only: Suc.IH)
  also have "\<dots> = s\<lparr>calls := calls s @ concat (replicate (Suc n) ?tick)\<rparr>"
    by (simp add: handle_heartbeat_calls swap)
  finally show ?case .
qed

lemma count_heartbeat_calls:
  "length (filter is_heartbeat_write (concat (map (heartbeat_calls this) ds))) = length ds"
  by (induction ds) (simp_all add: heartbeat_calls_def write_heartbeat_def write_frame_def)

lemma count_replicate:
  "length (filter P (concat (replicate n xs))) = n * length (filter P xs)"
  by (induction n) simp_all

lemma set_direct_routes:
  "set (direct_routes es) = {(nd, hdl). (nd, Direct hdl) \<in> set es}"
  by (induction es rule: direct_routes.induct) auto

lemma distinct_direct_routes:
  "distinct (map fst es) \<Longrightarrow> distinct (map fst (direct_routes es))"
  by (induction es rule: direct_routes.induct) (force simp: set_direct_routes)+

lemma direct_nodes_card:
  assumes "distinct (map fst es)"
  shows "card {nd. \<exists>hdl. map_of es nd = Some (Direct hdl)} = length (direct_routes es)"
proof -
  have "{nd. \<exists>hdl. map_of es nd = Some (Direct hdl)} = set (map fst (direct_routes es))"
    using assms by (force simp: set_direct_routes)
  then show ?thesis
    using distinct_card [OF distinct_direct_routes [OF assms]] by simp
qed

text \<open>
  C6. With a routing table of unique keys, \<open>n\<close> heartbeat ticks add to the calls of the
  instance exactly \<open>n\<close> rounds of one frame write followed by one flush for each direct
  node, on that node's handle; the frames are heartbeat frames without payload, there
  are \<open>n * k\<close> of them for the \<open>k\<close> nodes in direct state, and the table is unchanged.
\<close>

theorem heartbeat_ticks_one_frame_per_direct_node:
  assumes "distinct (map fst (tbl s))"
  shows "calls ((handle_heartbeat ^^ n) s) =
           calls s @ concat (replicate n
             (concat (map (heartbeat_calls (this_node s)) (direct_routes (tbl s))))) \<and>
         length (filter is_heartbeat_write
           (drop (length (calls s)) (calls ((handle_heartbeat ^^ n) s)))) =
           n * card {nd. \<exists>hdl. map_of (tbl s) nd = Some (Direct hdl)} \<and>
         set (direct_routes (tbl s)) = {(nd, hdl). map_of (tbl s) nd = Some (Direct hdl)} \<and>
         distinct (map fst (direct_routes (tbl s))) \<and>
         tbl ((handle_heartbeat ^^ n) s) = tbl s"
proof -
  let ?tick = "concat (map (heartbeat_calls (this_node s)) (direct_routes (tbl s)))"
  have run: "(handle_heartbeat ^^ n) s = s\<lparr>calls := calls s @ concat (replicate n ?tick)\<rparr>"
    by (rule heartbeat_ticks_calls)
  have c1: "calls ((handle_heartbeat ^^ n) s) = calls s @ concat (replicate n ?tick)"
    by (simp add: run)
  have "length (filter is_heartbeat_write (concat (replicate n ?tick))) =
          n * length (direct_routes (tbl s))"
    by (simp only: count_replicate count_heartbeat_calls)
  then have c2: "length (filter is_heartbeat_write
           (drop (length (calls s)) (calls ((handle_heartbeat ^^ n) s)))) =
           n * card {nd. \<exists>hdl. map_of (tbl s) nd = Some (Direct hdl)}"
    by (simp only: c1 direct_nodes_card [OF assms]) simp
  have c3: "set (direct_routes (tbl s)) = {(nd, hdl). map_of (tbl s) nd = Some (Direct hdl)}"
    using assms by (simp add: set_direct_routes)
  have c4: "distinct (map fst (direct_routes (tbl s)))"
    by (rule distinct_direct_routes [OF assms])
  have c5: "tbl ((handle_heartbeat ^^ n) s) = tbl s"
    by (simp add: run)
  show ?thesis using c1 c2 c3 c4 c5 by blast
qed

theorem heartbeat_ticks_one_frame_per_direct_node_witness:
  "distinct (map fst (tbl three_nodes)) \<and>
   calls ((handle_heartbeat ^^ 2) three_nodes) =
     [Buffer_write (Connection_handle 5) (write_heartbeat 9), Flush (Connection_handle 5),
      Buffer_write (Datagram_handle 6) (write_heartbeat 9), Flush (Datagram_handle 6),
      Buffer_write (Connection_handle 5) (write_heartbeat 9), Flush (Connection_handle 5),
      Buffer_write (Datagram_handle 6) (write_heartbeat 9), Flush (Datagram_handle 6)]"
proof -
  have d: "distinct (map fst (tbl three_nodes))" by (simp add: three_nodes_def)
  have "replicate 2 x = [x, x]" for x :: "call list" by (simp add: numeral_2_eq_2)
  then show ?thesis
    using d heartbeat_ticks_one_frame_per_direct_node [OF d, of 2]
    by (simp add: three_nodes_def heartbeat_calls_def)
qed

end
